theory Spec2Isabelle
  imports Main "HOL-Library.Word" "HOL-Library.AList"
begin

section \<open>Clip storage service: a model of \<^verbatim>\<open>app.py\<close>\<close>

text \<open>
  The service keeps one JSON metadata file and a directory of blobs. Each handler of
  \<^verbatim>\<open>app.py\<close> is a function from the file system before the request to the response
  and the file system after it. What the handlers obtain from outside the repository
  (the uuid generator, the clock, the base URL, hashlib's SHA-256) is a parameter.
\<close>

subsection \<open>JSON values and the Python operations the handlers apply to them\<close>

text \<open>
  A value as \<^verbatim>\<open>json.load\<close> returns it. A dict is an association list looked up with
  \<open>map_of\<close>; numbers are integers (the service itself writes no float).
\<close>

datatype json =
    JNull
  | JBool bool
  | JInt int
  | JStr string
  | JList "json list"
  | JObj "(string \<times> json) list"

datatype exn = KeyError string | TypeError | AttributeError | OSError | NotFound

text \<open>\<^verbatim>\<open>x[k]\<close> for a string key \<open>k\<close>: only a dict has string keys.\<close>

fun getitem :: "json \<Rightarrow> string \<Rightarrow> exn + json" where
  "getitem (JObj kvs) k = (case map_of kvs k of None \<Rightarrow> Inl (KeyError k) | Some v \<Rightarrow> Inr v)"
| "getitem JNull k = Inl TypeError"
| "getitem (JBool b) k = Inl TypeError"
| "getitem (JInt i) k = Inl TypeError"
| "getitem (JStr s) k = Inl TypeError"
| "getitem (JList xs) k = Inl TypeError"

text \<open>\<^verbatim>\<open>for c in x\<close>: a list yields its elements, a dict its keys, a string its characters.\<close>

fun iter :: "json \<Rightarrow> exn + json list" where
  "iter (JList xs) = Inr xs"
| "iter (JObj kvs) = Inr (map (\<lambda>kv. JStr (fst kv)) kvs)"
| "iter (JStr s) = Inr (map (\<lambda>c. JStr [c]) s)"
| "iter JNull = Inl TypeError"
| "iter (JBool b) = Inl TypeError"
| "iter (JInt i) = Inl TypeError"

text \<open>Python truth value, as \<^verbatim>\<open>if not clip\<close> tests it.\<close>

fun truthy :: "json \<Rightarrow> bool" where
  "truthy JNull = False"
| "truthy (JBool b) = b"
| "truthy (JInt i) = (i \<noteq> 0)"
| "truthy (JStr s) = (s \<noteq> [])"
| "truthy (JList xs) = (xs \<noteq> [])"
| "truthy (JObj kvs) = (kvs \<noteq> [])"

text \<open>\<^verbatim>\<open>x.append(v)\<close>: only a list has the method.\<close>

fun append_item :: "json \<Rightarrow> json \<Rightarrow> exn + json" where
  "append_item (JList xs) v = Inr (JList (xs @ [v]))"
| "append_item JNull v = Inl AttributeError"
| "append_item (JBool b) v = Inl AttributeError"
| "append_item (JInt i) v = Inl AttributeError"
| "append_item (JStr s) v = Inl AttributeError"
| "append_item (JObj kvs) v = Inl AttributeError"

text \<open>\<^verbatim>\<open>x[k] = v\<close> on a dict keeps the position of an existing key.\<close>

fun setitem :: "json \<Rightarrow> string \<Rightarrow> json \<Rightarrow> exn + json" where
  "setitem (JObj kvs) k v = Inr (JObj (AList.update k v kvs))"
| "setitem JNull k v = Inl TypeError"
| "setitem (JBool b) k v = Inl TypeError"
| "setitem (JInt i) k v = Inl TypeError"
| "setitem (JStr s) k v = Inl TypeError"
| "setitem (JList xs) k v = Inl TypeError"

subsection \<open>The file system\<close>

type_synonym bytes = "8 word list"

text \<open>
  \<^verbatim>\<open>METADATA_FILE\<close>: absent, failing to be read (\<^verbatim>\<open>open\<close> or \<^verbatim>\<open>read\<close> raises), holding text
  that is not JSON, or holding the text of a JSON value. The text itself is the json
  module's business: a file is identified with the value \<^verbatim>\<open>json.load\<close> makes of it, and
  \<^verbatim>\<open>json.dump\<close> writes the file that loads as the value dumped.
\<close>

datatype meta_file = Missing | Unreadable | Invalid_json | Json_text json

text \<open>
  What the operating system and \<^verbatim>\<open>send_from_directory\<close> can answer for a path
  \<^verbatim>\<open>UPLOAD_FOLDER / name\<close>: looking at it raises; nothing is there; something is there that
  \<^verbatim>\<open>send_from_directory\<close> does not serve (not a regular file, or a path it refuses); or a
  regular file with its content.
\<close>

datatype entry = Stat_error exn | No_entry | Not_served | Regular_file bytes

text \<open>
  \<^verbatim>\<open>UPLOAD_FOLDER\<close>: \<open>uploads\<close> maps the names of the blobs to their contents; the
  directory holds these regular files and nothing else. A write
  either happens in full or is refused: \<open>metadata_writable\<close> and \<open>uploads_writable\<close> say
  whether opening for writing, creating and unlinking succeed. \<open>uploads_readable\<close> says
  whether the directory can be searched and its files opened for reading. \<open>other_paths\<close>
  is what a name that is not the plain name of a file in the directory leads to (the
  empty name and \<^verbatim>\<open>.\<close> are the directory itself, \<^verbatim>\<open>..\<close> and names with a separator lead
  elsewhere, an over-long name makes the system call fail).
\<close>

record fs =
  metadata_file :: meta_file
  metadata_writable :: bool
  uploads :: "string \<rightharpoonup> bytes"
  uploads_writable :: bool
  uploads_readable :: bool
  other_paths :: "string \<Rightarrow> entry"

definition empty_document :: json where
  "empty_document = JObj [(''clips'', JList [])]"

text \<open>\<^verbatim>\<open>load_metadata\<close> (lines 28-34): the bare \<^verbatim>\<open>except\<close> turns every failure into the empty document.\<close>

definition load_metadata :: "fs \<Rightarrow> json" where
  "load_metadata s =
     (case metadata_file s of
        Json_text j \<Rightarrow> j
      | Missing \<Rightarrow> empty_document
      | Unreadable \<Rightarrow> empty_document
      | Invalid_json \<Rightarrow> empty_document)"

text \<open>\<^verbatim>\<open>save_metadata\<close> (lines 37-40): opens with mode \<^verbatim>\<open>'w'\<close> and dumps the whole document.\<close>

definition save_metadata :: "json \<Rightarrow> fs \<Rightarrow> exn + fs" where
  "save_metadata data s =
     (if metadata_writable s then Inr (s\<lparr>metadata_file := Json_text data\<rparr>) else Inl OSError)"

text \<open>\<^verbatim>\<open>file.save(filepath)\<close>, \<^verbatim>\<open>filepath.stat().st_size\<close>, \<^verbatim>\<open>filepath.unlink()\<close>.\<close>

definition file_save :: "string \<Rightarrow> bytes \<Rightarrow> fs \<Rightarrow> exn + fs" where
  "file_save name data s =
     (if uploads_writable s then Inr (s\<lparr>uploads := (uploads s)(name \<mapsto> data)\<rparr>) else Inl OSError)"

definition st_size :: "string \<Rightarrow> fs \<Rightarrow> exn + nat" where
  "st_size name s = (case uploads s name of None \<Rightarrow> Inl OSError | Some data \<Rightarrow> Inr (length data))"

definition unlink :: "string \<Rightarrow> fs \<Rightarrow> exn + fs" where
  "unlink name s =
     (if uploads_writable s then Inr (s\<lparr>uploads := (uploads s)(name := None)\<rparr>) else Inl OSError)"

text \<open>
  A plain name: not empty, not \<^verbatim>\<open>.\<close> or \<^verbatim>\<open>..\<close>, at most 255 characters, all of them ASCII
  and none of them \<^verbatim>\<open>/\<close> or the null character. Joined to \<^verbatim>\<open>UPLOAD_FOLDER\<close> it names an
  entry of that directory and nothing else.
\<close>

definition plain_name :: "string \<Rightarrow> bool" where
  "plain_name name =
     (name \<noteq> [] \<and> name \<noteq> ''.'' \<and> name \<noteq> ''..'' \<and> length name \<le> 255
      \<and> list_all (\<lambda>c. c \<noteq> CHR ''/'' \<and> 0 < (of_char c :: nat) \<and> (of_char c :: nat) < 128) name)"

definition path_entry :: "string \<Rightarrow> fs \<Rightarrow> entry" where
  "path_entry name s =
     (if \<not> plain_name name then other_paths s name
      else if \<not> uploads_readable s then Stat_error OSError
      else (case uploads s name of None \<Rightarrow> No_entry | Some data \<Rightarrow> Regular_file data))"

text \<open>
  \<^verbatim>\<open>filepath.exists()\<close> (line 156): pathlib answers False when nothing is there and lets
  other errors of the system call through.
\<close>

definition path_exists :: "string \<Rightarrow> fs \<Rightarrow> exn + bool" where
  "path_exists name s =
     (case path_entry name s of
        Stat_error x \<Rightarrow> Inl x
      | No_entry \<Rightarrow> Inr False
      | Not_served \<Rightarrow> Inr True
      | Regular_file data \<Rightarrow> Inr True)"

text \<open>
  \<^verbatim>\<open>send_from_directory(UPLOAD_FOLDER, name)\<close> (line 159): raises werkzeug's
  \<^verbatim>\<open>NotFound\<close> unless the path is a regular file inside the directory. Flask resolves
  the relative \<^verbatim>\<open>UPLOAD_FOLDER\<close> against the application's root path, pathlib against the
  working directory; the model takes the two to be one directory.
\<close>

definition send_from_directory :: "string \<Rightarrow> fs \<Rightarrow> exn + bytes" where
  "send_from_directory name s =
     (case path_entry name s of
        Regular_file data \<Rightarrow> Inr data
      | Stat_error x \<Rightarrow> Inl NotFound
      | No_entry \<Rightarrow> Inl NotFound
      | Not_served \<Rightarrow> Inl NotFound)"

subsection \<open>Identifier and hash\<close>

text \<open>
  What a request takes from outside: \<^verbatim>\<open>os.getenv('BASE_URL', ...)\<close>, \<^verbatim>\<open>str(uuid.uuid4())\<close>,
  \<^verbatim>\<open>datetime.now().isoformat()\<close>, and hashlib's SHA-256 as the function from a message to
  its hexadecimal digest.
\<close>

record env =
  BASE_URL :: string
  uuid4 :: string
  now :: string
  sha256_hexdigest :: "bytes \<Rightarrow> string"

text \<open>\<^verbatim>\<open>generate_clip_id\<close> (lines 43-45): \<^verbatim>\<open>str(uuid.uuid4())[:8]\<close>.\<close>

definition generate_clip_id :: "env \<Rightarrow> string" where
  "generate_clip_id e = take 8 (uuid4 e)"

text \<open>
  The loop of \<^verbatim>\<open>get_file_hash\<close> (lines 52-53). \<open>f\<close> is what the open file has left to
  read; the hash object is the message fed to it so far (\<^verbatim>\<open>update\<close> appends).
  \<^verbatim>\<open>f.read(4096)\<close> returns at most 4096 bytes, and \<^verbatim>\<open>b""\<close> at the end of the file.
\<close>

function read_blocks :: "bytes \<Rightarrow> bytes \<Rightarrow> bytes" where
  "read_blocks f sha256_hash =
     (let byte_block = take 4096 f in
      if byte_block = [] then sha256_hash
      else read_blocks (drop 4096 f) (sha256_hash @ byte_block))"
  by pat_completeness auto
termination
  by (relation "measure (\<lambda>(f, h). length f)") auto

declare read_blocks.simps [simp del]

text \<open>\<^verbatim>\<open>get_file_hash\<close> (lines 48-54).\<close>

definition get_file_hash :: "env \<Rightarrow> string \<Rightarrow> fs \<Rightarrow> exn + string" where
  "get_file_hash e name s =
     (case uploads s name of
        None \<Rightarrow> Inl OSError
      | Some data \<Rightarrow> Inr (take 16 (sha256_hexdigest e (read_blocks data []))))"

subsection \<open>File names\<close>

text \<open>\<^verbatim>\<open>str.split(sep)\<close> for a one-character separator.\<close>

fun split_at :: "char \<Rightarrow> string \<Rightarrow> string list" where
  "split_at sep [] = [[]]"
| "split_at sep (c # cs) =
     (if c = sep then [] # split_at sep cs
      else (case split_at sep cs of [] \<Rightarrow> [[c]] | p # ps \<Rightarrow> (c # p) # ps))"

text \<open>
  \<^verbatim>\<open>PurePosixPath(p).name\<close>: pathlib drops empty and \<^verbatim>\<open>'.'\<close> components; the name is the
  last component left, or the empty string.
\<close>

definition path_name :: "string \<Rightarrow> string" where
  "path_name p =
     (case filter (\<lambda>x. x \<noteq> [] \<and> x \<noteq> ''.'') (split_at CHR ''/'' p) of
        [] \<Rightarrow> []
      | x # xs \<Rightarrow> last (x # xs))"

text \<open>\<^verbatim>\<open>str.rfind('.')\<close>: the index of the last dot, \<open>None\<close> for Python's -1.\<close>

fun rfind_dot :: "string \<Rightarrow> nat option" where
  "rfind_dot [] = None"
| "rfind_dot (c # cs) =
     (case rfind_dot cs of
        Some i \<Rightarrow> Some (Suc i)
      | None \<Rightarrow> if c = CHR ''.'' then Some 0 else None)"

text \<open>
  \<^verbatim>\<open>Path(p).suffix\<close> (pathlib of CPython 3.8 to 3.13):
  \<^verbatim>\<open>i = name.rfind('.'); name[i:] if 0 < i < len(name) - 1 else ''\<close>.
\<close>

definition suffix :: "string \<Rightarrow> string" where
  "suffix p =
     (let name = path_name p in
      case rfind_dot name of
        None \<Rightarrow> []
      | Some i \<Rightarrow> if 0 < i \<and> i + 1 < length name then drop i name else [])"

text \<open>
  \<^verbatim>\<open>str.lower()\<close>. A Python string is modelled as a list of characters with code points
  below 256; among these, A to Z and the capital letters of Latin-1 (192 to 222 without
  the multiplication sign 215) have a lower-case form, 32 code points further on.
\<close>

definition lower_char :: "char \<Rightarrow> char" where
  "lower_char c =
     (let n = (of_char c :: nat) in
      if (65 \<le> n \<and> n \<le> 90) \<or> (192 \<le> n \<and> n \<le> 222 \<and> n \<noteq> 215) then char_of (n + 32)
      else c)"

definition lower :: "string \<Rightarrow> string" where
  "lower s = map lower_char s"

definition allowed_extensions :: "string set" where
  "allowed_extensions = {''.mp4'', ''.avi'', ''.mov'', ''.mkv'', ''.webm''}"

subsection \<open>Requests and responses\<close>

record upload_file =
  filename :: string
  content :: bytes

text \<open>
  \<open>Ok_json j\<close> is \<^verbatim>\<open>jsonify(j), 200\<close>; \<open>Client_error m c\<close> is \<^verbatim>\<open>jsonify({"error": m}), c\<close>;
  \<open>Server_error e\<close> is \<^verbatim>\<open>jsonify({"error": str(e)}), 500\<close>; \<open>File_body name data\<close> is what
  \<^verbatim>\<open>send_from_directory\<close> serves.
\<close>

datatype response =
    Ok_json json
  | Client_error string nat
  | Server_error exn
  | File_body string bytes

fun status :: "response \<Rightarrow> nat" where
  "status (Ok_json j) = 200"
| "status (Client_error m c) = c"
| "status (Server_error e) = 500"
| "status (File_body name data) = 200"

subsection \<open>The handlers\<close>

text \<open>The record written at lines 105-113.\<close>

definition clip_data :: "env \<Rightarrow> string \<Rightarrow> string \<Rightarrow> string \<Rightarrow> nat \<Rightarrow> string \<Rightarrow> json" where
  "clip_data e clip_id safe_filename original file_size file_hash =
     JObj [(''clip_id'', JStr clip_id),
           (''filename'', JStr safe_filename),
           (''original_filename'', JStr original),
           (''upload_time'', JStr (now e)),
           (''file_size'', JInt (int file_size)),
           (''file_hash'', JStr file_hash),
           (''url'', JStr (BASE_URL e @ ''/clips/'' @ clip_id))]"

text \<open>The body of the 200 response, lines 120-126.\<close>

definition upload_ok :: "env \<Rightarrow> string \<Rightarrow> json" where
  "upload_ok e clip_id =
     JObj [(''success'', JBool True),
           (''clip_id'', JStr clip_id),
           (''url'', JStr (BASE_URL e @ ''/view/'' @ clip_id)),
           (''download_url'', JStr (BASE_URL e @ ''/clips/'' @ clip_id)),
           (''message'', JStr ''Clip uploaded successfully'')]"

text \<open>
  Lines 116-117: \<^verbatim>\<open>metadata["clips"].append(clip_data)\<close> changes the list inside the
  loaded document.
\<close>

definition append_clip :: "json \<Rightarrow> json \<Rightarrow> exn + json" where
  "append_clip metadata c =
     (case getitem metadata ''clips'' of
        Inl x \<Rightarrow> Inl x
      | Inr clips \<Rightarrow>
          (case append_item clips c of
             Inl x \<Rightarrow> Inl x
           | Inr clips' \<Rightarrow> setitem metadata ''clips'' clips'))"

text \<open>
  \<^verbatim>\<open>upload_clip\<close> (lines 72-129). \<open>file\<close> is \<^verbatim>\<open>request.files.get('file')\<close>. An exception
  leaves the file system as it was when it was raised. The text of the 400 response of
  line 90 ends in Python's rendering of the set, whose order is not fixed; the model
  keeps the fixed part.
\<close>

definition upload_clip :: "env \<Rightarrow> upload_file option \<Rightarrow> fs \<Rightarrow> response \<times> fs" where
  "upload_clip e file s =
     (case file of
        None \<Rightarrow> (Client_error ''No file provided'' 400, s)
      | Some f \<Rightarrow>
          if filename f = [] then (Client_error ''No file selected'' 400, s)
          else
            let file_ext = lower (suffix (filename f)) in
            if file_ext \<notin> allowed_extensions
            then (Client_error ''Invalid file type. Allowed: '' 400, s)
            else
              let clip_id = generate_clip_id e;
                  safe_filename = clip_id @ file_ext
              in
              (case file_save safe_filename (content f) s of
                 Inl x \<Rightarrow> (Server_error x, s)
               | Inr s1 \<Rightarrow>
                   (case st_size safe_filename s1 of
                      Inl x \<Rightarrow> (Server_error x, s1)
                    | Inr file_size \<Rightarrow>
                        (case get_file_hash e safe_filename s1 of
                           Inl x \<Rightarrow> (Server_error x, s1)
                         | Inr file_hash \<Rightarrow>
                             (case append_clip (load_metadata s1)
                                     (clip_data e clip_id safe_filename (filename f)
                                        file_size file_hash) of
                                Inl x \<Rightarrow> (Server_error x, s1)
                              | Inr metadata \<Rightarrow>
                                  (case save_metadata metadata s1 of
                                     Inl x \<Rightarrow> (Server_error x, s1)
                                   | Inr s2 \<Rightarrow> (Ok_json (upload_ok e clip_id), s2)))))))"

text \<open>\<^verbatim>\<open>list_clips\<close> (lines 132-139).\<close>

definition list_clips :: "fs \<Rightarrow> response" where
  "list_clips s = Ok_json (load_metadata s)"

text \<open>
  \<^verbatim>\<open>next((c for c in clips if c["clip_id"] == clip_id), None)\<close>: the generator stops at the
  first match, so later elements are not looked at.
\<close>

fun first_match :: "json list \<Rightarrow> string \<Rightarrow> exn + json option" where
  "first_match [] clip_id = Inr None"
| "first_match (c # cs) clip_id =
     (case getitem c ''clip_id'' of
        Inl x \<Rightarrow> Inl x
      | Inr v \<Rightarrow> if v = JStr clip_id then Inr (Some c) else first_match cs clip_id)"

definition find_clip :: "json \<Rightarrow> string \<Rightarrow> exn + json option" where
  "find_clip metadata clip_id =
     (case getitem metadata ''clips'' of
        Inl x \<Rightarrow> Inl x
      | Inr clips \<Rightarrow>
          (case iter clips of
             Inl x \<Rightarrow> Inl x
           | Inr cs \<Rightarrow> first_match cs clip_id))"

text \<open>\<^verbatim>\<open>UPLOAD_FOLDER / clip["filename"]\<close>: the value has to be a string.\<close>

definition clip_filepath :: "json \<Rightarrow> exn + string" where
  "clip_filepath clip =
     (case getitem clip ''filename'' of
        Inl x \<Rightarrow> Inl x
      | Inr (JStr name) \<Rightarrow> Inr name
      | Inr _ \<Rightarrow> Inl TypeError)"

text \<open>
  \<^verbatim>\<open>get_clip\<close> (lines 142-162). \<^verbatim>\<open>if not clip\<close> holds for \<^verbatim>\<open>None\<close> and for a value that is
  false in Python. What \<^verbatim>\<open>exists()\<close> or \<^verbatim>\<open>send_from_directory\<close> raises is caught at line
  161 and answered with 500.
\<close>

definition get_clip :: "string \<Rightarrow> fs \<Rightarrow> response" where
  "get_clip clip_id s =
     (case find_clip (load_metadata s) clip_id of
        Inl x \<Rightarrow> Server_error x
      | Inr None \<Rightarrow> Client_error ''Clip not found'' 404
      | Inr (Some clip) \<Rightarrow>
          if \<not> truthy clip then Client_error ''Clip not found'' 404
          else
            (case clip_filepath clip of
               Inl x \<Rightarrow> Server_error x
             | Inr name \<Rightarrow>
                 (case path_exists name s of
                    Inl x \<Rightarrow> Server_error x
                  | Inr False \<Rightarrow> Client_error ''File not found on server'' 404
                  | Inr True \<Rightarrow>
                      (case send_from_directory name s of
                         Inl x \<Rightarrow> Server_error x
                       | Inr data \<Rightarrow> File_body name data))))"

text \<open>\<^verbatim>\<open>[c for c in clips if c["clip_id"] != clip_id]\<close>: every element is looked at.\<close>

fun without_clip :: "json list \<Rightarrow> string \<Rightarrow> exn + json list" where
  "without_clip [] clip_id = Inr []"
| "without_clip (c # cs) clip_id =
     (case getitem c ''clip_id'' of
        Inl x \<Rightarrow> Inl x
      | Inr v \<Rightarrow>
          (case without_clip cs clip_id of
             Inl x \<Rightarrow> Inl x
           | Inr r \<Rightarrow> Inr (if v \<noteq> JStr clip_id then c # r else r)))"

text \<open>Line 183: the comprehension and the assignment to \<^verbatim>\<open>metadata["clips"]\<close>.\<close>

definition remove_clip :: "json \<Rightarrow> string \<Rightarrow> exn + json" where
  "remove_clip metadata clip_id =
     (case getitem metadata ''clips'' of
        Inl x \<Rightarrow> Inl x
      | Inr clips \<Rightarrow>
          (case iter clips of
             Inl x \<Rightarrow> Inl x
           | Inr cs \<Rightarrow>
               (case without_clip cs clip_id of
                  Inl x \<Rightarrow> Inl x
                | Inr r \<Rightarrow> setitem metadata ''clips'' (JList r))))"

text \<open>
  Lines 178-180: \<^verbatim>\<open>if filepath.exists(): filepath.unlink()\<close>, on the blobs of \<open>uploads\<close>:
  the path of a record that an upload wrote is the plain name of its blob.
\<close>

definition unlink_if_exists :: "string \<Rightarrow> fs \<Rightarrow> exn + fs" where
  "unlink_if_exists name s = (if uploads s name \<noteq> None then unlink name s else Inr s)"

definition delete_ok :: "string \<Rightarrow> json" where
  "delete_ok clip_id =
     JObj [(''success'', JBool True), (''message'', JStr (''Clip '' @ clip_id @ '' deleted''))]"

text \<open>\<^verbatim>\<open>delete_clip\<close> (lines 165-192).\<close>

definition delete_clip :: "string \<Rightarrow> fs \<Rightarrow> response \<times> fs" where
  "delete_clip clip_id s =
     (let metadata = load_metadata s in
      case find_clip metadata clip_id of
        Inl x \<Rightarrow> (Server_error x, s)
      | Inr None \<Rightarrow> (Client_error ''Clip not found'' 404, s)
      | Inr (Some clip) \<Rightarrow>
          if \<not> truthy clip then (Client_error ''Clip not found'' 404, s)
          else
            (case clip_filepath clip of
               Inl x \<Rightarrow> (Server_error x, s)
             | Inr name \<Rightarrow>
                 (case unlink_if_exists name s of
                    Inl x \<Rightarrow> (Server_error x, s)
                  | Inr s1 \<Rightarrow>
                      (case remove_clip metadata clip_id of
                         Inl x \<Rightarrow> (Server_error x, s1)
                       | Inr metadata' \<Rightarrow>
                           (case save_metadata metadata' s1 of
                              Inl x \<Rightarrow> (Server_error x, s1)
                            | Inr s2 \<Rightarrow> (Ok_json (delete_ok clip_id), s2))))))"

subsection \<open>Sequences of requests\<close>

datatype request =
    Upload env "upload_file option"
  | List_clips
  | Get_clip string
  | Delete string

fun handle :: "request \<Rightarrow> fs \<Rightarrow> response \<times> fs" where
  "handle (Upload e file) s = upload_clip e file s"
| "handle List_clips s = (list_clips s, s)"
| "handle (Get_clip clip_id) s = (get_clip clip_id s, s)"
| "handle (Delete clip_id) s = delete_clip clip_id s"

text \<open>Requests served one after the other, none overlapping another.\<close>

fun run :: "request list \<Rightarrow> fs \<Rightarrow> fs" where
  "run [] s = s"
| "run (r # rs) s = run rs (snd (handle r s))"

subsection \<open>The documents the service writes\<close>

text \<open>
  The service writes \<^verbatim>\<open>{"clips": [...]}\<close> (line 25) with the records of lines 105-113. The
  handlers read two keys of a record, \<^verbatim>\<open>clip_id\<close> and \<^verbatim>\<open>filename\<close>; a record is one whose
  values under both are strings.
\<close>

fun clip_id_of :: "json \<Rightarrow> json option" where
  "clip_id_of (JObj kvs) = map_of kvs ''clip_id''"
| "clip_id_of j = None"

fun filename_of :: "json \<Rightarrow> string option" where
  "filename_of (JObj kvs) =
     (case map_of kvs ''filename'' of Some (JStr name) \<Rightarrow> Some name | _ \<Rightarrow> None)"
| "filename_of j = None"

definition is_clip_record :: "json \<Rightarrow> bool" where
  "is_clip_record c =
     ((case clip_id_of c of Some (JStr i) \<Rightarrow> True | _ \<Rightarrow> False) \<and> filename_of c \<noteq> None)"

fun clips_of :: "json \<Rightarrow> json list" where
  "clips_of (JObj kvs) = (case map_of kvs ''clips'' of Some (JList cs) \<Rightarrow> cs | _ \<Rightarrow> [])"
| "clips_of j = []"

fun is_document :: "json \<Rightarrow> bool" where
  "is_document (JObj kvs) =
     (case map_of kvs ''clips'' of Some (JList cs) \<Rightarrow> list_all is_clip_record cs | _ \<Rightarrow> False)"
| "is_document j = False"

definition clip_ids :: "json \<Rightarrow> json option list" where
  "clip_ids doc = map clip_id_of (clips_of doc)"

text \<open>The records with a given identifier, and the first of them (the one a lookup finds).\<close>

definition has_id :: "string \<Rightarrow> json \<Rightarrow> bool" where
  "has_id clip_id c = (clip_id_of c = Some (JStr clip_id))"

definition lookup_clip :: "string \<Rightarrow> json \<Rightarrow> json option" where
  "lookup_clip clip_id doc = find (has_id clip_id) (clips_of doc)"

subsection \<open>The records a sequence of requests implies\<close>

text \<open>
  The specification's account of the metadata store (its sections 3, 4.3 and 4.6), on the
  list of records alone: an upload that passes validation appends one record, built from
  the uploaded content; a delete removes the records with the identifier; nothing else
  changes the list.
\<close>

definition spec_accepts :: "upload_file option \<Rightarrow> bool" where
  "spec_accepts file =
     (case file of
        None \<Rightarrow> False
      | Some f \<Rightarrow> filename f \<noteq> [] \<and> lower (suffix (filename f)) \<in> allowed_extensions)"




text \<open>The identifiers the uploads of a sequence draw.\<close>

fun generated_ids :: "request list \<Rightarrow> string list" where
  "generated_ids [] = []"
| "generated_ids (Upload e file # rs) = generate_clip_id e # generated_ids rs"
| "generated_ids (List_clips # rs) = generated_ids rs"
| "generated_ids (Get_clip clip_id # rs) = generated_ids rs"
| "generated_ids (Delete clip_id # rs) = generated_ids rs"

subsection \<open>Example states\<close>

text \<open>
  The file system right after the first start (lines 15 and 23-25), an environment, and
  states with one stored clip, with a record whose blob is gone, with a record whose file
  name is empty, and with two records of one identifier. The digest function of the
  example environment answers with the SHA-256 digest of the two bytes \<^verbatim>\<open>hi\<close>, the only
  content the examples upload. In the examples the names that are not plain lead to the
  upload directory or its parent (which are there and are not served), or are too long
  for the system call, or lead to nothing.
\<close>

definition example_paths :: "string \<Rightarrow> entry" where
  "example_paths name =
     (if name = [] \<or> name = ''.'' \<or> name = ''..'' then Not_served
      else if 255 < length name then Stat_error OSError
      else No_entry)"

definition initial_fs :: fs where
  "initial_fs = \<lparr>metadata_file = Json_text (JObj [(''clips'', JList [])]), metadata_writable = True,
      uploads = Map.empty, uploads_writable = True,
      uploads_readable = True, other_paths = example_paths\<rparr>"

definition example_env :: env where
  "example_env = \<lparr>BASE_URL = ''http://localhost:5000'',
      uuid4 = ''1b4e28ba-2fa1-41d2-883f-0016d3cca427'',
      now = ''2024-05-01T12:00:00'',
      sha256_hexdigest =
        (\<lambda>m. ''8f434346648f6b96df89dda901c5176b10a6d83961dd3c1ac88b59b2dc327aa4'')\<rparr>"

definition demo_file :: upload_file where
  "demo_file = \<lparr>filename = ''demo.MP4'', content = [104, 105]\<rparr>"

definition example_record :: json where
  "example_record =
     JObj [(''clip_id'', JStr ''1b4e28ba''),
           (''filename'', JStr ''1b4e28ba.mp4''),
           (''original_filename'', JStr ''demo.MP4''),
           (''upload_time'', JStr ''2024-05-01T12:00:00''),
           (''file_size'', JInt 2),
           (''file_hash'', JStr ''8f434346648f6b96''),
           (''url'', JStr ''http://localhost:5000/clips/1b4e28ba'')]"

definition other_record :: json where
  "other_record =
     JObj [(''clip_id'', JStr ''9c0ffee1''),
           (''filename'', JStr ''9c0ffee1.webm''),
           (''original_filename'', JStr ''talk.webm''),
           (''upload_time'', JStr ''2024-05-02T08:30:00''),
           (''file_size'', JInt 1),
           (''file_hash'', JStr ''6e340b9cffb37a98''),
           (''url'', JStr ''http://localhost:5000/clips/9c0ffee1'')]"

definition twin_record :: json where
  "twin_record =
     JObj [(''clip_id'', JStr ''1b4e28ba''),
           (''filename'', JStr ''1b4e28ba.avi''),
           (''original_filename'', JStr ''again.avi''),
           (''upload_time'', JStr ''2024-05-03T09:00:00''),
           (''file_size'', JInt 2),
           (''file_hash'', JStr ''8f434346648f6b96''),
           (''url'', JStr ''http://localhost:5000/clips/1b4e28ba'')]"

definition stored_fs :: fs where
  "stored_fs = \<lparr>metadata_file = Json_text (JObj [(''clips'', JList [example_record])]),
      metadata_writable = True,
      uploads = [''1b4e28ba.mp4'' \<mapsto> [104, 105]],
      uploads_writable = True,
      uploads_readable = True, other_paths = example_paths\<rparr>"

definition orphaned_fs :: fs where
  "orphaned_fs = \<lparr>metadata_file = Json_text (JObj [(''clips'', JList [example_record])]),
      metadata_writable = True,
      uploads = Map.empty,
      uploads_writable = True,
      uploads_readable = True, other_paths = example_paths\<rparr>"

definition nameless_record :: json where
  "nameless_record =
     JObj [(''clip_id'', JStr ''1b4e28ba''),
           (''filename'', JStr []),
           (''original_filename'', JStr ''demo.MP4''),
           (''upload_time'', JStr ''2024-05-01T12:00:00''),
           (''file_size'', JInt 2),
           (''file_hash'', JStr ''8f434346648f6b96''),
           (''url'', JStr ''http://localhost:5000/clips/1b4e28ba'')]"

definition nameless_fs :: fs where
  "nameless_fs = \<lparr>metadata_file = Json_text (JObj [(''clips'', JList [nameless_record])]),
      metadata_writable = True,
      uploads = Map.empty,
      uploads_writable = True,
      uploads_readable = True, other_paths = example_paths\<rparr>"

definition twins_fs :: fs where
  "twins_fs = \<lparr>metadata_file =
        Json_text (JObj [(''clips'', JList [example_record, other_record, twin_record])]),
      metadata_writable = True,
      uploads = [''1b4e28ba.mp4'' \<mapsto> [104, 105], ''9c0ffee1.webm'' \<mapsto> [0],
                 ''1b4e28ba.avi'' \<mapsto> [104, 105]],
      uploads_writable = True,
      uploads_readable = True, other_paths = example_paths\<rparr>"

definition colliding_env :: env where
  "colliding_env = \<lparr>BASE_URL = ''http://localhost:5000'',
      uuid4 = ''1b4e28ba-7c55-4f0e-9d3a-5e2b8a6f1c11'',
      now = ''2024-05-03T09:00:00'',
      sha256_hexdigest =
        (\<lambda>m. ''8f434346648f6b96df89dda901c5176b10a6d83961dd3c1ac88b59b2dc327aa4'')\<rparr>"

definition other_env :: env where
  "other_env = \<lparr>BASE_URL = ''http://localhost:5000'',
      uuid4 = ''9c0ffee1-03b2-4d6e-a1f7-7d4c2b9e8a55'',
      now = ''2024-05-02T08:30:00'',
      sha256_hexdigest =
        (\<lambda>m. ''8f434346648f6b96df89dda901c5176b10a6d83961dd3c1ac88b59b2dc327aa4'')\<rparr>"



section \<open>Properties\<close>

subsection \<open>Facts about the helpers\<close>

lemma read_blocks_append: "read_blocks f h = h @ f"
proof (induction f h rule: read_blocks.induct)
  case (1 f h)
  show ?case
  proof (cases "take 4096 f = []")
    case True
    then have "f = []" by simp
    moreover from True have "read_blocks f h = h"
      by (subst read_blocks.simps) (simp add: Let_def)
    ultimately show ?thesis by simp
  next
    case False
    then have "read_blocks f h = read_blocks (drop 4096 f) (h @ take 4096 f)"
      by (subst read_blocks.simps) (simp add: Let_def)
    also have "\<dots> = (h @ take 4096 f) @ drop 4096 f"
      using "1.IH" False by simp
    finally show ?thesis by simp
  qed
qed

lemma split_at_nonempty: "split_at sep p \<noteq> []"
  by (induction p) (auto split: list.splits)

lemma split_at_subset: "x \<in> set (split_at sep p) \<Longrightarrow> set x \<subseteq> set p"
proof (induction p arbitrary: x)
  case Nil
  then show ?case by simp
next
  case (Cons c cs)
  show ?case
  proof (cases "c = sep")
    case True
    with Cons show ?thesis by auto
  next
    case False
    obtain q qs where sp: "split_at sep cs = q # qs"
      using split_at_nonempty by (cases "split_at sep cs") auto
    with Cons.prems False have "x = c # q \<or> x \<in> set qs" by simp
    moreover have "set q \<subseteq> set cs" using Cons.IH sp by simp
    moreover have "\<And>y. y \<in> set qs \<Longrightarrow> set y \<subseteq> set cs" using Cons.IH sp by simp
    ultimately show ?thesis by auto
  qed
qed

lemma rfind_dot_None: "rfind_dot x = None \<longleftrightarrow> CHR ''.'' \<notin> set x"
  by (induction x) (auto split: option.splits)

lemma path_name_subset: "set (path_name p) \<subseteq> set p"
proof -
  let ?xs = "filter (\<lambda>x. x \<noteq> [] \<and> x \<noteq> ''.'') (split_at CHR ''/'' p)"
  show ?thesis
  proof (cases ?xs)
    case Nil
    then show ?thesis by (simp add: path_name_def)
  next
    case (Cons y ys)
    then have "path_name p = last ?xs" by (simp add: path_name_def)
    moreover have "last ?xs \<in> set ?xs" using Cons by (metis last_in_set list.distinct(1))
    ultimately have "path_name p \<in> set (split_at CHR ''/'' p)" by auto
    then show ?thesis by (rule split_at_subset)
  qed
qed

lemma suffix_no_dot: "CHR ''.'' \<notin> set p \<Longrightarrow> suffix p = []"
proof -
  assume "CHR ''.'' \<notin> set p"
  then have "CHR ''.'' \<notin> set (path_name p)" using path_name_subset by blast
  then have "rfind_dot (path_name p) = None" by (simp add: rfind_dot_None)
  then show ?thesis by (simp add: suffix_def)
qed

lemma path_name_cases:
  "path_name p = [] \<or> path_name p \<in> set (split_at CHR ''/'' p)"
proof -
  let ?xs = "filter (\<lambda>x. x \<noteq> [] \<and> x \<noteq> ''.'') (split_at CHR ''/'' p)"
  show ?thesis
  proof (cases ?xs)
    case Nil
    then show ?thesis by (simp add: path_name_def)
  next
    case (Cons y ys)
    then have "path_name p = last ?xs" by (simp add: path_name_def)
    moreover have "last ?xs \<in> set ?xs" using Cons by (metis last_in_set list.distinct(1))
    ultimately show ?thesis by auto
  qed
qed

lemma rfind_dot_leading: "CHR ''.'' \<notin> set q \<Longrightarrow> rfind_dot (CHR ''.'' # q) = Some 0"
  using rfind_dot_None[of q] by simp

lemma suffix_leading_dot:
  assumes "CHR ''.'' \<notin> set rest"
  shows "suffix (CHR ''.'' # rest) = []"
proof -
  obtain q qs where sp: "split_at CHR ''/'' rest = q # qs"
    using split_at_nonempty by (cases "split_at CHR ''/'' rest") auto
  have q: "CHR ''.'' \<notin> set q"
    using split_at_subset[of q "CHR ''/''" rest] sp assms by auto
  have qs: "\<And>y. y \<in> set qs \<Longrightarrow> CHR ''.'' \<notin> set y"
    using split_at_subset[of _ "CHR ''/''" rest] sp assms by auto
  have comps: "split_at CHR ''/'' (CHR ''.'' # rest) = (CHR ''.'' # q) # qs"
    using sp by simp
  consider "path_name (CHR ''.'' # rest) = []"
    | "path_name (CHR ''.'' # rest) = CHR ''.'' # q"
    | "path_name (CHR ''.'' # rest) \<in> set qs"
    using path_name_cases[of "CHR ''.'' # rest"] comps by auto
  then show ?thesis
  proof cases
    case 1
    then show ?thesis by (simp add: suffix_def)
  next
    case 2
    then show ?thesis using rfind_dot_leading[OF q] by (simp add: suffix_def)
  next
    case 3
    then have "rfind_dot (path_name (CHR ''.'' # rest)) = None"
      using qs by (simp add: rfind_dot_None)
    then show ?thesis by (simp add: suffix_def)
  qed
qed

lemma empty_not_allowed: "lower [] \<notin> allowed_extensions"
  by (simp add: lower_def allowed_extensions_def)

lemma getitem_clip_id: "getitem c ''clip_id'' = Inr v \<longleftrightarrow> clip_id_of c = Some v"
  by (cases c) (auto split: option.splits)

lemma getitem_clip_id_has_id: "getitem c ''clip_id'' = Inr (JStr i) \<longleftrightarrow> has_id i c"
  by (simp add: getitem_clip_id has_id_def)

lemma clip_filepath_filename_of: "clip_filepath c = Inr name \<longleftrightarrow> filename_of c = Some name"
  by (cases c) (auto simp: clip_filepath_def split: option.splits json.splits)

lemma has_id_truthy: "has_id i c \<Longrightarrow> truthy c"
  by (cases c) (auto simp: has_id_def)

lemma first_match_find: "first_match cs i = Inr r \<Longrightarrow> r = find (has_id i) cs"
proof (induction cs)
  case Nil
  then show ?case by simp
next
  case (Cons c cs)
  from Cons.prems obtain v where v: "getitem c ''clip_id'' = Inr v"
    by (auto split: sum.splits)
  show ?case
  proof (cases "v = JStr i")
    case True
    with v have "has_id i c" by (simp add: getitem_clip_id_has_id)
    with Cons.prems v True show ?thesis by simp
  next
    case False
    with v have "\<not> has_id i c" by (simp add: getitem_clip_id has_id_def)
    with Cons v False show ?thesis by simp
  qed
qed

lemma without_clip_filter:
  "without_clip cs i = Inr r \<Longrightarrow> r = filter (\<lambda>c. \<not> has_id i c) cs"
proof (induction cs arbitrary: r)
  case Nil
  then show ?case by simp
next
  case (Cons c cs)
  from Cons.prems obtain v r' where v: "getitem c ''clip_id'' = Inr v"
    and r': "without_clip cs i = Inr r'" and r: "r = (if v \<noteq> JStr i then c # r' else r')"
    by (auto split: sum.splits)
  have "has_id i c \<longleftrightarrow> v = JStr i" using v by (simp add: getitem_clip_id has_id_def)
  with Cons.IH[OF r'] r show ?case by simp
qed

lemma record_fields:
  assumes "is_clip_record c"
  obtains i name where "clip_id_of c = Some (JStr i)" and "filename_of c = Some name"
  using assms by (auto simp: is_clip_record_def split: option.splits json.splits)

lemma first_match_records:
  "list_all is_clip_record cs \<Longrightarrow> first_match cs i = Inr (find (has_id i) cs)"
proof (induction cs)
  case Nil
  then show ?case by simp
next
  case (Cons c cs)
  then have "is_clip_record c" by simp
  then obtain j name where j: "clip_id_of c = Some (JStr j)"
    by (rule record_fields)
  then have "getitem c ''clip_id'' = Inr (JStr j)" by (simp add: getitem_clip_id)
  with Cons j show ?case by (simp add: has_id_def)
qed


lemma document_shape:
  assumes "is_document d"
  obtains kvs cs where "d = JObj kvs" and "map_of kvs ''clips'' = Some (JList cs)"
    and "list_all is_clip_record cs" and "clips_of d = cs"
  using assms by (cases d) (auto split: option.splits json.splits)

lemma find_clip_document:
  assumes "is_document d"
  shows "find_clip d i = Inr (lookup_clip i d)"
proof -
  from assms obtain kvs cs where "d = JObj kvs" "map_of kvs ''clips'' = Some (JList cs)"
    "list_all is_clip_record cs" "clips_of d = cs"
    by (rule document_shape)
  then show ?thesis
    by (simp add: find_clip_def lookup_clip_def first_match_records)
qed

lemma find_has_id: "find (has_id i) cs = Some c \<Longrightarrow> has_id i c \<and> c \<in> set cs"
  by (auto simp: find_Some_iff)

lemma find_clip_Some:
  assumes "find_clip d i = Inr (Some c)"
  obtains kvs cs where "d = JObj kvs" and "map_of kvs ''clips'' = Some (JList cs)"
    and "find (has_id i) cs = Some c"
proof -
  from assms obtain clips xs where g: "getitem d ''clips'' = Inr clips"
    and it: "iter clips = Inr xs" and fm: "first_match xs i = Inr (Some c)"
    by (auto simp: find_clip_def split: sum.splits)
  from g obtain kvs where d: "d = JObj kvs" and m: "map_of kvs ''clips'' = Some clips"
    by (cases d) (auto split: option.splits)
  from fm have f: "find (has_id i) xs = Some c" by (auto dest: first_match_find)
  then have c: "has_id i c" "c \<in> set xs" by (auto dest: find_has_id)
  have "clips = JList xs"
  proof (cases clips)
    case (JList ys)
    with it show ?thesis by simp
  next
    case (JObj ys)
    with it c show ?thesis by (auto simp: has_id_def)
  next
    case (JStr ys)
    with it c show ?thesis by (auto simp: has_id_def)
  qed (use it in auto)
  with d m f show ?thesis using that by simp
qed

lemma path_entry_plain:
  assumes "plain_name name" and "uploads_readable s"
  shows "path_entry name s =
    (case uploads s name of None \<Rightarrow> No_entry | Some data \<Rightarrow> Regular_file data)"
  using assms by (simp add: path_entry_def)

lemma get_clip_document:
  assumes "is_document (load_metadata s)"
  shows "get_clip i s =
    (case lookup_clip i (load_metadata s) of
       None \<Rightarrow> Client_error ''Clip not found'' 404
     | Some c \<Rightarrow>
         (case filename_of c of
            None \<Rightarrow> Server_error TypeError
          | Some name \<Rightarrow>
              (case path_entry name s of
                 Stat_error x \<Rightarrow> Server_error x
               | No_entry \<Rightarrow> Client_error ''File not found on server'' 404
               | Not_served \<Rightarrow> Server_error NotFound
               | Regular_file data \<Rightarrow> File_body name data)))"
proof (cases "lookup_clip i (load_metadata s)")
  case None
  then show ?thesis using find_clip_document[OF assms] by (simp add: get_clip_def)
next
  case (Some c)
  from assms obtain kvs cs where "list_all is_clip_record cs" "clips_of (load_metadata s) = cs"
    by (rule document_shape)
  moreover from Some have "has_id i c" "c \<in> set (clips_of (load_metadata s))"
    by (auto simp: lookup_clip_def dest: find_has_id)
  ultimately have "is_clip_record c" by (auto simp: list_all_iff)
  then obtain j name where name: "filename_of c = Some name" by (rule record_fields)
  then have "clip_filepath c = Inr name" by (simp add: clip_filepath_filename_of)
  with Some name \<open>has_id i c\<close> show ?thesis
    using find_clip_document[OF assms]
    by (simp add: get_clip_def has_id_truthy path_exists_def send_from_directory_def
        split: entry.splits)
qed

lemma document_record_filename:
  assumes "is_document d" and "lookup_clip i d = Some c"
  obtains name where "filename_of c = Some name"
proof -
  from assms(1) obtain kvs cs where "list_all is_clip_record cs" "clips_of d = cs"
    by (rule document_shape)
  moreover from assms(2) have "c \<in> set (clips_of d)"
    by (auto simp: lookup_clip_def dest: find_has_id)
  ultimately have "is_clip_record c" by (auto simp: list_all_iff)
  then show ?thesis using that by (auto elim: record_fields)
qed

lemma without_clip_all_ids:
  "without_clip cs i = Inr r \<Longrightarrow> \<forall>x\<in>set cs. clip_id_of x \<noteq> None"
proof (induction cs arbitrary: r)
  case Nil
  then show ?case by simp
next
  case (Cons c cs)
  from Cons.prems obtain v r' where v: "getitem c ''clip_id'' = Inr v"
    and r': "without_clip cs i = Inr r'"
    by (auto split: sum.splits)
  from v have "clip_id_of c \<noteq> None" by (simp add: getitem_clip_id)
  with Cons.IH[OF r'] show ?case by simp
qed


lemma map_of_update_same: "map_of (AList.update k v kvs) k = Some v"
  by (simp add: update_conv')

lemma status_200_delete:
  assumes "delete_clip i s = (r, s')" and "status r = 200"
  obtains c name s1 d' where "find_clip (load_metadata s) i = Inr (Some c)"
    and "clip_filepath c = Inr name"
    and "unlink_if_exists name s = Inr s1"
    and "remove_clip (load_metadata s) i = Inr d'"
    and "save_metadata d' s1 = Inr s'"
    and "r = Ok_json (delete_ok i)"
  using assms
  by (auto simp: delete_clip_def Let_def split: sum.splits option.splits if_splits)

lemma unlink_if_exists_Inr:
  "unlink_if_exists name s = Inr s1 \<Longrightarrow> s1 = s\<lparr>uploads := (uploads s)(name := None)\<rparr>"
proof -
  assume a: "unlink_if_exists name s = Inr s1"
  show ?thesis
  proof (cases "uploads s name")
    case None
    then have "(uploads s)(name := None) = uploads s" by (simp add: fun_upd_idem)
    with a None show ?thesis by (simp add: unlink_if_exists_def)
  next
    case (Some data)
    with a show ?thesis by (auto simp: unlink_if_exists_def unlink_def split: if_splits)
  qed
qed

lemma delete_clip_success:
  assumes "delete_clip i s = (r, s')" and "status r = 200"
  obtains kvs cs c name where "load_metadata s = JObj kvs"
    and "map_of kvs ''clips'' = Some (JList cs)"
    and "find (has_id i) cs = Some c"
    and "filename_of c = Some name"
    and "\<forall>x\<in>set cs. clip_id_of x \<noteq> None"
    and "metadata_writable s"
    and "s' = s\<lparr>uploads := (uploads s)(name := None),
                 metadata_file :=
                   Json_text (JObj (AList.update ''clips''
                     (JList (filter (\<lambda>c. \<not> has_id i c) cs)) kvs))\<rparr>"
    and "r = Ok_json (delete_ok i)"
proof -
  from assms obtain c name s1 d' where fc: "find_clip (load_metadata s) i = Inr (Some c)"
    and fp: "clip_filepath c = Inr name"
    and ul: "unlink_if_exists name s = Inr s1"
    and rm: "remove_clip (load_metadata s) i = Inr d'"
    and sv: "save_metadata d' s1 = Inr s'"
    and r: "r = Ok_json (delete_ok i)"
    by (rule status_200_delete)
  from fc obtain kvs cs where d: "load_metadata s = JObj kvs"
    and m: "map_of kvs ''clips'' = Some (JList cs)" and f: "find (has_id i) cs = Some c"
    by (rule find_clip_Some)
  from rm d m obtain rs where rs: "without_clip cs i = Inr rs"
    and d': "d' = JObj (AList.update ''clips'' (JList rs) kvs)"
    by (auto simp: remove_clip_def split: sum.splits)
  from rs have rs': "rs = filter (\<lambda>c. \<not> has_id i c) cs" by (rule without_clip_filter)
  from ul have s1: "s1 = s\<lparr>uploads := (uploads s)(name := None)\<rparr>"
    by (rule unlink_if_exists_Inr)
  from sv s1 d' rs' have "s' = s\<lparr>uploads := (uploads s)(name := None),
                 metadata_file :=
                   Json_text (JObj (AList.update ''clips''
                     (JList (filter (\<lambda>c. \<not> has_id i c) cs)) kvs))\<rparr>"
    by (auto simp: save_metadata_def split: if_splits)
  moreover from fp have "filename_of c = Some name" by (simp add: clip_filepath_filename_of)
  moreover from rs have "\<forall>x\<in>set cs. clip_id_of x \<noteq> None" by (rule without_clip_all_ids)
  moreover from sv have "metadata_writable s1" by (auto simp: save_metadata_def split: if_splits)
  then have "metadata_writable s" using s1 by simp
  ultimately show ?thesis using that d m f r by blast
qed

lemma status_200_upload:
  assumes "upload_clip e file s = (r, s')" and "status r = 200"
  obtains f s1 file_size file_hash metadata where "file = Some f"
    and "filename f \<noteq> []"
    and "lower (suffix (filename f)) \<in> allowed_extensions"
    and "file_save (generate_clip_id e @ lower (suffix (filename f))) (content f) s = Inr s1"
    and "st_size (generate_clip_id e @ lower (suffix (filename f))) s1 = Inr file_size"
    and "get_file_hash e (generate_clip_id e @ lower (suffix (filename f))) s1 = Inr file_hash"
    and "append_clip (load_metadata s1)
           (clip_data e (generate_clip_id e) (generate_clip_id e @ lower (suffix (filename f)))
              (filename f) file_size file_hash) = Inr metadata"
    and "save_metadata metadata s1 = Inr s'"
    and "r = Ok_json (upload_ok e (generate_clip_id e))"
proof -
  from assms obtain f where fl: "file = Some f"
    by (cases "file") (auto simp: upload_clip_def)
  from assms fl have fn: "filename f \<noteq> []"
    by (auto simp: upload_clip_def split: if_splits)
  from assms fl fn have ext: "lower (suffix (filename f)) \<in> allowed_extensions"
    by (auto simp: upload_clip_def Let_def split: if_splits)
  let ?name = "generate_clip_id e @ lower (suffix (filename f))"
  let ?rec = "clip_data e (generate_clip_id e) ?name (filename f)"
  have body: "upload_clip e file s =
      (case file_save ?name (content f) s of
         Inl x \<Rightarrow> (Server_error x, s)
       | Inr s1 \<Rightarrow>
           (case st_size ?name s1 of
              Inl x \<Rightarrow> (Server_error x, s1)
            | Inr file_size \<Rightarrow>
                (case get_file_hash e ?name s1 of
                   Inl x \<Rightarrow> (Server_error x, s1)
                 | Inr file_hash \<Rightarrow>
                     (case append_clip (load_metadata s1) (?rec file_size file_hash) of
                        Inl x \<Rightarrow> (Server_error x, s1)
                      | Inr metadata \<Rightarrow>
                          (case save_metadata metadata s1 of
                             Inl x \<Rightarrow> (Server_error x, s1)
                           | Inr s2 \<Rightarrow> (Ok_json (upload_ok e (generate_clip_id e)), s2))))))"
    using fl fn ext by (simp add: upload_clip_def Let_def)
  obtain s1 where a: "file_save ?name (content f) s = Inr s1"
    using assms body by (cases "file_save ?name (content f) s") auto
  obtain file_size where b: "st_size ?name s1 = Inr file_size"
    using assms body a by (cases "st_size ?name s1") auto
  obtain file_hash where c: "get_file_hash e ?name s1 = Inr file_hash"
    using assms body a b by (cases "get_file_hash e ?name s1") auto
  obtain metadata where d: "append_clip (load_metadata s1) (?rec file_size file_hash) = Inr metadata"
    using assms body a b c
    by (cases "append_clip (load_metadata s1) (?rec file_size file_hash)") auto
  obtain s2 where g: "save_metadata metadata s1 = Inr s2"
    using assms body a b c d by (cases "save_metadata metadata s1") auto
  from assms body a b c d g have "r = Ok_json (upload_ok e (generate_clip_id e))" "s' = s2"
    by auto
  with fl fn ext a b c d g show ?thesis using that by blast
qed

lemma append_clip_Inr:
  assumes "append_clip d c = Inr d'"
  obtains kvs cs where "d = JObj kvs" and "map_of kvs ''clips'' = Some (JList cs)"
    and "d' = JObj (AList.update ''clips'' (JList (cs @ [c])) kvs)"
proof -
  from assms obtain clips clips' where g: "getitem d ''clips'' = Inr clips"
    and a: "append_item clips c = Inr clips'" and s: "setitem d ''clips'' clips' = Inr d'"
    by (auto simp: append_clip_def split: sum.splits)
  from g obtain kvs where d: "d = JObj kvs" and m: "map_of kvs ''clips'' = Some clips"
    by (cases d) (auto split: option.splits)
  from a obtain cs where "clips = JList cs" and "clips' = JList (cs @ [c])"
    by (cases clips) auto
  with d m s show ?thesis using that by auto
qed

lemma upload_clip_success:
  assumes "upload_clip e file s = (r, s')" and "status r = 200"
  obtains f kvs cs where "file = Some f"
    and "filename f \<noteq> []"
    and "lower (suffix (filename f)) \<in> allowed_extensions"
    and "load_metadata s = JObj kvs"
    and "map_of kvs ''clips'' = Some (JList cs)"
    and "uploads_writable s"
    and "metadata_writable s"
    and "s' = s\<lparr>uploads := (uploads s)(generate_clip_id e @ lower (suffix (filename f)) \<mapsto> content f),
                 metadata_file :=
                   Json_text (JObj (AList.update ''clips''
                     (JList (cs @ [clip_data e (generate_clip_id e)
                         (generate_clip_id e @ lower (suffix (filename f))) (filename f)
                         (length (content f))
                         (take 16 (sha256_hexdigest e (content f)))])) kvs))\<rparr>"
    and "r = Ok_json (upload_ok e (generate_clip_id e))"
proof -
  from assms obtain f s1 file_size file_hash metadata where fl: "file = Some f"
    and fn: "filename f \<noteq> []"
    and ext: "lower (suffix (filename f)) \<in> allowed_extensions"
    and sv: "file_save (generate_clip_id e @ lower (suffix (filename f))) (content f) s = Inr s1"
    and sz: "st_size (generate_clip_id e @ lower (suffix (filename f))) s1 = Inr file_size"
    and hs: "get_file_hash e (generate_clip_id e @ lower (suffix (filename f))) s1 = Inr file_hash"
    and ap: "append_clip (load_metadata s1)
           (clip_data e (generate_clip_id e) (generate_clip_id e @ lower (suffix (filename f)))
              (filename f) file_size file_hash) = Inr metadata"
    and sm: "save_metadata metadata s1 = Inr s'"
    and r: "r = Ok_json (upload_ok e (generate_clip_id e))"
    by (rule status_200_upload)
  let ?name = "generate_clip_id e @ lower (suffix (filename f))"
  from sv have uw: "uploads_writable s"
    by (simp add: file_save_def split: if_splits)
  with sv have s1: "s1 = s\<lparr>uploads := (uploads s)(?name \<mapsto> content f)\<rparr>"
    by (simp add: file_save_def)
  have blob: "uploads s1 ?name = Some (content f)"
    by (simp add: s1)
  from sz have fsize: "file_size = length (content f)"
    by (simp add: st_size_def blob)
  from hs have fhash: "file_hash = take 16 (sha256_hexdigest e (content f))"
    by (simp add: get_file_hash_def blob read_blocks_append)
  have l: "load_metadata s1 = load_metadata s"
    by (simp add: s1 load_metadata_def)
  from ap obtain kvs cs where d: "load_metadata s1 = JObj kvs"
    and m: "map_of kvs ''clips'' = Some (JList cs)"
    and md: "metadata = JObj (AList.update ''clips'' (JList (cs @
        [clip_data e (generate_clip_id e) ?name (filename f) file_size file_hash])) kvs)"
    by (rule append_clip_Inr)
  from sm have mw1: "metadata_writable s1"
    by (simp add: save_metadata_def split: if_splits)
  then have mw: "metadata_writable s" by (simp add: s1)
  from sm mw1 have "s' = s1\<lparr>metadata_file := Json_text metadata\<rparr>"
    by (simp add: save_metadata_def)
  then have s': "s' = s\<lparr>uploads := (uploads s)(?name \<mapsto> content f),
                 metadata_file :=
                   Json_text (JObj (AList.update ''clips''
                     (JList (cs @ [clip_data e (generate_clip_id e) ?name (filename f)
                         (length (content f))
                         (take 16 (sha256_hexdigest e (content f)))])) kvs))\<rparr>"
    unfolding s1 md fsize fhash by simp
  from d l have d': "load_metadata s = JObj kvs" by simp
  show ?thesis
    by (rule that[OF fl fn ext d' m uw mw s' r])
qed

lemma upload_clip_rejected:
  "\<not> spec_accepts file \<Longrightarrow> upload_clip e file s = (fst (upload_clip e file s), s)"
  by (cases "file") (auto simp: spec_accepts_def upload_clip_def Let_def)

lemma upload_failure_keeps_metadata:
  assumes "status (fst (upload_clip e file s)) \<noteq> 200"
  shows "metadata_file (snd (upload_clip e file s)) = metadata_file s"
proof (cases "spec_accepts file")
  case False
  then show ?thesis using upload_clip_rejected[of "file" e s] by (metis snd_conv)
next
  case True
  then obtain f where fl: "file = Some f" and fn: "filename f \<noteq> []"
    and ext: "lower (suffix (filename f)) \<in> allowed_extensions"
    by (cases "file") (auto simp: spec_accepts_def)
  let ?name = "generate_clip_id e @ lower (suffix (filename f))"
  let ?rec = "clip_data e (generate_clip_id e) ?name (filename f)"
  have body: "upload_clip e file s =
      (case file_save ?name (content f) s of
         Inl x \<Rightarrow> (Server_error x, s)
       | Inr s1 \<Rightarrow>
           (case st_size ?name s1 of
              Inl x \<Rightarrow> (Server_error x, s1)
            | Inr file_size \<Rightarrow>
                (case get_file_hash e ?name s1 of
                   Inl x \<Rightarrow> (Server_error x, s1)
                 | Inr file_hash \<Rightarrow>
                     (case append_clip (load_metadata s1) (?rec file_size file_hash) of
                        Inl x \<Rightarrow> (Server_error x, s1)
                      | Inr metadata \<Rightarrow>
                          (case save_metadata metadata s1 of
                             Inl x \<Rightarrow> (Server_error x, s1)
                           | Inr s2 \<Rightarrow> (Ok_json (upload_ok e (generate_clip_id e)), s2))))))"
    using fl fn ext by (simp add: upload_clip_def Let_def)
  show ?thesis
  proof (cases "file_save ?name (content f) s")
    case (Inl x)
    with body show ?thesis by simp
  next
    case (Inr s1)
    then have m: "metadata_file s1 = metadata_file s"
      by (auto simp: file_save_def split: if_splits)
    from assms body Inr m show ?thesis
      by (auto split: sum.splits)
  qed
qed

lemma delete_failure_keeps_metadata:
  assumes "status (fst (delete_clip i s)) \<noteq> 200"
  shows "metadata_file (snd (delete_clip i s)) = metadata_file s"
proof -
  have u: "\<And>name s1. unlink_if_exists name s = Inr s1 \<Longrightarrow> metadata_file s1 = metadata_file s"
    by (auto dest: unlink_if_exists_Inr)
  from assms show ?thesis
    by (auto simp: delete_clip_def Let_def dest: u split: sum.splits option.splits if_splits)
qed

lemma clip_data_record: "is_clip_record (clip_data e i name original n h)"
  by (simp add: clip_data_def is_clip_record_def)

lemma clip_data_id: "clip_id_of (clip_data e i name original n h) = Some (JStr i)"
  by (simp add: clip_data_def)


lemma is_document_update:
  "list_all is_clip_record cs \<Longrightarrow> is_document (JObj (AList.update ''clips'' (JList cs) kvs))"
  by (simp add: map_of_update_same)

lemma load_metadata_cong: "metadata_file s' = metadata_file s \<Longrightarrow> load_metadata s' = load_metadata s"
  by (simp add: load_metadata_def)

text \<open>
  What one request does to the stored list of records, whether it succeeds or fails.
\<close>

lemma upload_clip_clips:
  assumes "is_document (load_metadata s)"
  shows "is_document (load_metadata (snd (upload_clip e file s)))
         \<and> (clips_of (load_metadata (snd (upload_clip e file s))) = clips_of (load_metadata s)
            \<or> (\<exists>c. is_clip_record c \<and> clip_id_of c = Some (JStr (generate_clip_id e))
                  \<and> clips_of (load_metadata (snd (upload_clip e file s)))
                      = clips_of (load_metadata s) @ [c]))"
proof (cases "status (fst (upload_clip e file s)) = 200")
  case False
  then have "load_metadata (snd (upload_clip e file s)) = load_metadata s"
    by (intro load_metadata_cong upload_failure_keeps_metadata)
  with assms show ?thesis by simp
next
  case True
  have p: "upload_clip e file s = (fst (upload_clip e file s), snd (upload_clip e file s))"
    by simp
  from p True obtain f kvs cs where "file = Some f"
    and "filename f \<noteq> []"
    and "lower (suffix (filename f)) \<in> allowed_extensions"
    and d: "load_metadata s = JObj kvs"
    and m: "map_of kvs ''clips'' = Some (JList cs)"
    and "uploads_writable s"
    and "metadata_writable s"
    and s': "snd (upload_clip e file s) =
       s\<lparr>uploads := (uploads s)(generate_clip_id e @ lower (suffix (filename f)) \<mapsto> content f),
                 metadata_file :=
                   Json_text (JObj (AList.update ''clips''
                     (JList (cs @ [clip_data e (generate_clip_id e)
                         (generate_clip_id e @ lower (suffix (filename f))) (filename f)
                         (length (content f))
                         (take 16 (sha256_hexdigest e (content f)))])) kvs))\<rparr>"
    and "fst (upload_clip e file s) = Ok_json (upload_ok e (generate_clip_id e))"
    by (rule upload_clip_success)
  let ?c = "clip_data e (generate_clip_id e)
              (generate_clip_id e @ lower (suffix (filename f))) (filename f)
              (length (content f)) (take 16 (sha256_hexdigest e (content f)))"
  from s' have l: "load_metadata (snd (upload_clip e file s)) =
      JObj (AList.update ''clips'' (JList (cs @ [?c])) kvs)"
    by (simp add: load_metadata_def)
  from assms d m have cs: "list_all is_clip_record cs" "clips_of (load_metadata s) = cs"
    by simp_all
  then have "list_all is_clip_record (cs @ [?c])" by (simp add: clip_data_record)
  then have "is_document (load_metadata (snd (upload_clip e file s)))"
    unfolding l by (rule is_document_update)
  moreover have "clips_of (load_metadata (snd (upload_clip e file s))) = clips_of (load_metadata s) @ [?c]"
    unfolding l using cs by (simp add: map_of_update_same)
  ultimately show ?thesis using clip_data_record clip_data_id by blast
qed

lemma delete_clip_clips:
  assumes "is_document (load_metadata s)"
  shows "is_document (load_metadata (snd (delete_clip i s)))
         \<and> (clips_of (load_metadata (snd (delete_clip i s))) = clips_of (load_metadata s)
            \<or> clips_of (load_metadata (snd (delete_clip i s)))
                 = filter (\<lambda>c. \<not> has_id i c) (clips_of (load_metadata s)))"
proof (cases "status (fst (delete_clip i s)) = 200")
  case False
  then have "load_metadata (snd (delete_clip i s)) = load_metadata s"
    by (intro load_metadata_cong delete_failure_keeps_metadata)
  with assms show ?thesis by simp
next
  case True
  have p: "delete_clip i s = (fst (delete_clip i s), snd (delete_clip i s))"
    by simp
  from p True obtain kvs cs c name where d: "load_metadata s = JObj kvs"
    and m: "map_of kvs ''clips'' = Some (JList cs)"
    and "find (has_id i) cs = Some c"
    and "filename_of c = Some name"
    and "\<forall>x\<in>set cs. clip_id_of x \<noteq> None"
    and "metadata_writable s"
    and s': "snd (delete_clip i s) = s\<lparr>uploads := (uploads s)(name := None),
                 metadata_file :=
                   Json_text (JObj (AList.update ''clips''
                     (JList (filter (\<lambda>c. \<not> has_id i c) cs)) kvs))\<rparr>"
    and "fst (delete_clip i s) = Ok_json (delete_ok i)"
    by (rule delete_clip_success)
  from s' have l: "load_metadata (snd (delete_clip i s)) =
      JObj (AList.update ''clips'' (JList (filter (\<lambda>c. \<not> has_id i c) cs)) kvs)"
    by (simp add: load_metadata_def)
  from assms d m have cs: "list_all is_clip_record cs" "clips_of (load_metadata s) = cs"
    by simp_all
  then have "list_all is_clip_record (filter (\<lambda>c. \<not> has_id i c) cs)"
    by (simp add: list_all_iff)
  then have "is_document (load_metadata (snd (delete_clip i s)))"
    unfolding l by (rule is_document_update)
  moreover have "clips_of (load_metadata (snd (delete_clip i s)))
                 = filter (\<lambda>c. \<not> has_id i c) (clips_of (load_metadata s))"
    unfolding l using cs by (simp add: map_of_update_same)
  ultimately show ?thesis by simp
qed

lemma distinct_map_filter_ids: "distinct (map f xs) \<Longrightarrow> distinct (map f (filter P xs))"
  by (induction xs) auto

lemma unique_step:
  assumes doc: "is_document (load_metadata s)"
    and dis: "distinct (clip_ids (load_metadata s))"
    and gen: "distinct (generated_ids (r # rs))"
    and fresh: "\<forall>g\<in>set (generated_ids (r # rs)). Some (JStr g) \<notin> set (clip_ids (load_metadata s))"
  shows "is_document (load_metadata (snd (handle r s)))
         \<and> distinct (clip_ids (load_metadata (snd (handle r s))))
         \<and> distinct (generated_ids rs)
         \<and> (\<forall>g\<in>set (generated_ids rs).
               Some (JStr g) \<notin> set (clip_ids (load_metadata (snd (handle r s)))))"
proof (cases r)
  case (Upload e upl)
  let ?s' = "snd (upload_clip e upl s)"
  from gen Upload have g0: "generate_clip_id e \<notin> set (generated_ids rs)"
    and grs: "distinct (generated_ids rs)" by simp_all
  from fresh Upload have f0: "Some (JStr (generate_clip_id e)) \<notin> set (clip_ids (load_metadata s))"
    and frs: "\<forall>g\<in>set (generated_ids rs). Some (JStr g) \<notin> set (clip_ids (load_metadata s))"
    by simp_all
  from upload_clip_clips[OF doc, of e upl]
  have doc': "is_document (load_metadata ?s')"
    and alt: "clips_of (load_metadata ?s') = clips_of (load_metadata s)
            \<or> (\<exists>c. is_clip_record c \<and> clip_id_of c = Some (JStr (generate_clip_id e))
                  \<and> clips_of (load_metadata ?s') = clips_of (load_metadata s) @ [c])"
    by simp_all
  from alt have "distinct (clip_ids (load_metadata ?s'))
      \<and> (\<forall>g\<in>set (generated_ids rs). Some (JStr g) \<notin> set (clip_ids (load_metadata ?s')))"
  proof
    assume "clips_of (load_metadata ?s') = clips_of (load_metadata s)"
    then have "clip_ids (load_metadata ?s') = clip_ids (load_metadata s)"
      by (simp add: clip_ids_def)
    with dis frs show ?thesis by simp
  next
    assume "\<exists>c. is_clip_record c \<and> clip_id_of c = Some (JStr (generate_clip_id e))
                  \<and> clips_of (load_metadata ?s') = clips_of (load_metadata s) @ [c]"
    then have "clip_ids (load_metadata ?s')
        = clip_ids (load_metadata s) @ [Some (JStr (generate_clip_id e))]"
      by (auto simp: clip_ids_def)
    with dis f0 frs g0 show ?thesis by auto
  qed
  with doc' grs Upload show ?thesis by simp
next
  case List_clips
  with assms show ?thesis by simp
next
  case (Get_clip i)
  with assms show ?thesis by simp
next
  case (Delete i)
  let ?s' = "snd (delete_clip i s)"
  from delete_clip_clips[OF doc, of i]
  have doc': "is_document (load_metadata ?s')"
    and alt: "clips_of (load_metadata ?s') = clips_of (load_metadata s)
            \<or> clips_of (load_metadata ?s')
                 = filter (\<lambda>c. \<not> has_id i c) (clips_of (load_metadata s))"
    by simp_all
  from alt have "distinct (clip_ids (load_metadata ?s'))
      \<and> set (clip_ids (load_metadata ?s')) \<subseteq> set (clip_ids (load_metadata s))"
  proof
    assume "clips_of (load_metadata ?s') = clips_of (load_metadata s)"
    then have "clip_ids (load_metadata ?s') = clip_ids (load_metadata s)"
      by (simp add: clip_ids_def)
    with dis show ?thesis by simp
  next
    assume "clips_of (load_metadata ?s')
                 = filter (\<lambda>c. \<not> has_id i c) (clips_of (load_metadata s))"
    then have "clip_ids (load_metadata ?s')
        = map clip_id_of (filter (\<lambda>c. \<not> has_id i c) (clips_of (load_metadata s)))"
      by (simp add: clip_ids_def)
    with dis show ?thesis by (auto simp: clip_ids_def distinct_map_filter_ids)
  qed
  with doc' gen fresh Delete show ?thesis by auto
qed







text \<open>
  The example states and requests, evaluated.
\<close>

lemma stored_fs_document: "is_document (load_metadata stored_fs)"
  by (simp add: stored_fs_def load_metadata_def example_record_def is_clip_record_def)

lemma orphaned_fs_document: "is_document (load_metadata orphaned_fs)"
  by (simp add: orphaned_fs_def load_metadata_def example_record_def is_clip_record_def)

lemma delete_twins:
  "delete_clip ''1b4e28ba'' twins_fs =
     (Ok_json (delete_ok ''1b4e28ba''),
      twins_fs\<lparr>uploads := (uploads twins_fs)(''1b4e28ba.mp4'' := None),
                metadata_file := Json_text (JObj [(''clips'', JList [other_record])])\<rparr>)"
  by (simp add: delete_clip_def twins_fs_def load_metadata_def find_clip_def example_record_def
      other_record_def twin_record_def clip_filepath_def unlink_if_exists_def unlink_def
      remove_clip_def save_metadata_def)


lemma demo_ext: "lower (suffix ''demo.MP4'') = ''.mp4''"
  by code_simp


lemma upload_demo:
  "upload_clip example_env (Some demo_file) initial_fs
     = (Ok_json (upload_ok example_env ''1b4e28ba''), stored_fs)"
  by (simp add: upload_clip_def Let_def demo_file_def demo_ext allowed_extensions_def generate_clip_id_def
      example_env_def initial_fs_def file_save_def st_size_def get_file_hash_def read_blocks_append
      load_metadata_def append_clip_def clip_data_def save_metadata_def stored_fs_def
      example_record_def)

lemma upload_collision:
  "clip_ids (load_metadata (snd (upload_clip colliding_env (Some demo_file) stored_fs)))
     = [Some (JStr ''1b4e28ba''), Some (JStr ''1b4e28ba'')]"
  by (simp add: upload_clip_def Let_def demo_file_def demo_ext allowed_extensions_def
      generate_clip_id_def colliding_env_def stored_fs_def file_save_def st_size_def
      get_file_hash_def read_blocks_append load_metadata_def append_clip_def clip_data_def
      save_metadata_def example_record_def clip_ids_def)


subsection \<open>Loading the metadata\<close>

text \<open>
  C8. \<^verbatim>\<open>load_metadata\<close> never raises (its result is a JSON value, not an exception): when
  the backing file is missing, cannot be read or does not hold JSON, it returns the empty
  document \<^verbatim>\<open>{"clips": []}\<close>; when the file holds a JSON value, it returns that value.
\<close>

theorem load_metadata_total:
  "(metadata_file s = Missing \<or> metadata_file s = Unreadable \<or> metadata_file s = Invalid_json
      \<longrightarrow> load_metadata s = JObj [(''clips'', JList [])])
   \<and> (metadata_file t = Json_text j \<longrightarrow> load_metadata t = j)"
  by (auto simp: load_metadata_def empty_document_def)

theorem load_metadata_total_witness:
  "load_metadata \<lparr>metadata_file = Invalid_json, metadata_writable = True,
       uploads = Map.empty, uploads_writable = True,
      uploads_readable = True, other_paths = example_paths\<rparr> = JObj [(''clips'', JList [])]
   \<and> load_metadata \<lparr>metadata_file = Json_text (JObj [(''clips'', JList [JInt 1])]),
       metadata_writable = True, uploads = Map.empty, uploads_writable = True,
      uploads_readable = True, other_paths = example_paths\<rparr>
     = JObj [(''clips'', JList [JInt 1])]"
  using load_metadata_total
    [of "\<lparr>metadata_file = Invalid_json, metadata_writable = True,
           uploads = Map.empty, uploads_writable = True,
      uploads_readable = True, other_paths = example_paths\<rparr>"
        "\<lparr>metadata_file = Json_text (JObj [(''clips'', JList [JInt 1])]),
           metadata_writable = True, uploads = Map.empty, uploads_writable = True,
      uploads_readable = True, other_paths = example_paths\<rparr>"
        "JObj [(''clips'', JList [JInt 1])]"]
  by simp

subsection \<open>Accepted uploads\<close>



subsection \<open>Rejected uploads\<close>

text \<open>
  C4. An upload with no file part, with an empty file name, or whose lower-cased
  extension is not one of .mp4, .avi, .mov, .mkv, .webm is answered with status 400, and
  the file system (metadata file and blobs) is as it was.
\<close>

theorem upload_rejects_without_storing:
  assumes "file = None \<or> (\<exists>f. file = Some f \<and>
             (filename f = [] \<or> lower (suffix (filename f)) \<notin> allowed_extensions))"
  shows "status (fst (upload_clip e file s)) = 400 \<and> snd (upload_clip e file s) = s"
  using assms by (auto simp: upload_clip_def Let_def)

theorem upload_rejects_without_storing_witness:
  "status (fst (upload_clip example_env None initial_fs)) = 400
   \<and> snd (upload_clip example_env None initial_fs) = initial_fs
   \<and> status (fst (upload_clip example_env (Some \<lparr>filename = [], content = [104, 105]\<rparr>) initial_fs)) = 400
   \<and> snd (upload_clip example_env (Some \<lparr>filename = [], content = [104, 105]\<rparr>) initial_fs) = initial_fs
   \<and> status (fst (upload_clip example_env (Some \<lparr>filename = ''evil.exe'', content = [104, 105]\<rparr>) initial_fs)) = 400
   \<and> snd (upload_clip example_env (Some \<lparr>filename = ''evil.exe'', content = [104, 105]\<rparr>) initial_fs) = initial_fs"
proof -
  have h: "lower (suffix ''evil.exe'') \<notin> allowed_extensions"
    by code_simp
  show ?thesis
    using upload_rejects_without_storing[of None example_env initial_fs]
      upload_rejects_without_storing[of "Some \<lparr>filename = [], content = [104, 105]\<rparr>" example_env initial_fs]
      upload_rejects_without_storing[of "Some \<lparr>filename = ''evil.exe'', content = [104, 105]\<rparr>" example_env initial_fs]
      h
    by simp
qed

text \<open>
  C9. An upload whose non-empty file name has the empty \<^verbatim>\<open>Path.suffix\<close> is answered with
  the invalid-file-type error of line 90 (status 400), and the file system is unchanged.
  The suffix is empty for every name with no dot at all, and for every name whose only
  dot is its first character: so \<^verbatim>\<open>.mp4\<close> is rejected, although it ends in an allowed
  extension.
\<close>

theorem upload_rejects_suffixless_name:
  assumes "filename f \<noteq> []"
    and "suffix (filename f) = []
         \<or> CHR ''.'' \<notin> set (filename f)
         \<or> (\<exists>rest. filename f = CHR ''.'' # rest \<and> CHR ''.'' \<notin> set rest)"
  shows "suffix (filename f) = []
         \<and> upload_clip e (Some f) s = (Client_error ''Invalid file type. Allowed: '' 400, s)"
proof -
  have "suffix (filename f) = []"
    using assms(2) suffix_no_dot suffix_leading_dot by auto
  then show ?thesis
    using assms(1) empty_not_allowed by (simp add: upload_clip_def Let_def)
qed

theorem upload_rejects_suffixless_name_witness:
  "upload_clip example_env (Some \<lparr>filename = ''.mp4'', content = [104, 105]\<rparr>) initial_fs
     = (Client_error ''Invalid file type. Allowed: '' 400, initial_fs)
   \<and> upload_clip example_env (Some \<lparr>filename = ''video'', content = [104, 105]\<rparr>) initial_fs
     = (Client_error ''Invalid file type. Allowed: '' 400, initial_fs)
   \<and> suffix ''clip.'' = []
   \<and> upload_clip example_env (Some \<lparr>filename = ''clip.'', content = [104, 105]\<rparr>) initial_fs
     = (Client_error ''Invalid file type. Allowed: '' 400, initial_fs)"
proof -
  have h: "suffix ''clip.'' = []"
    by code_simp
  show ?thesis
    using upload_rejects_suffixless_name[of "\<lparr>filename = ''.mp4'', content = [104, 105]\<rparr>" example_env initial_fs]
      upload_rejects_suffixless_name[of "\<lparr>filename = ''video'', content = [104, 105]\<rparr>" example_env initial_fs]
      upload_rejects_suffixless_name[of "\<lparr>filename = ''clip.'', content = [104, 105]\<rparr>" example_env initial_fs]
      h
    by simp
qed

subsection \<open>Deleting\<close>

text \<open>
  C6. When the stored document has the service's shape and no record of it has the
  identifier, \<^verbatim>\<open>delete_clip\<close> answers 404 "Clip not found", not a server error, and the
  file system is unchanged. Nothing is assumed of \<open>metadata_writable\<close>: the answer is the
  same when the metadata file cannot be written, so this path saves nothing.
\<close>

theorem delete_unknown_not_found:
  assumes "is_document (load_metadata s)"
    and "Some (JStr clip_id) \<notin> set (clip_ids (load_metadata s))"
  shows "delete_clip clip_id s = (Client_error ''Clip not found'' 404, s)"
proof -
  have "find (has_id clip_id) (clips_of (load_metadata s)) = None"
    using assms(2) by (force simp: find_None_iff clip_ids_def has_id_def)
  then have "find_clip (load_metadata s) clip_id = Inr None"
    using find_clip_document[OF assms(1)] by (simp add: lookup_clip_def)
  then show ?thesis by (simp add: delete_clip_def)
qed

theorem delete_unknown_not_found_witness:
  "is_document (load_metadata stored_fs)
   \<and> Some (JStr ''ffffffff'') \<notin> set (clip_ids (load_metadata stored_fs))
   \<and> delete_clip ''ffffffff'' stored_fs = (Client_error ''Clip not found'' 404, stored_fs)"
proof -
  have h: "Some (JStr ''ffffffff'') \<notin> set (clip_ids (load_metadata stored_fs))"
    by (simp add: stored_fs_def load_metadata_def example_record_def clip_ids_def)
  show ?thesis
    using delete_unknown_not_found[OF stored_fs_document h] stored_fs_document h by simp
qed

text \<open>
  C10. After a delete answered with 200, the stored list of records is the list before
  without every record of the identifier: none of them remains, however many there were,
  and the other records stay in their order.
\<close>

theorem delete_removes_every_match:
  assumes "delete_clip clip_id s = (r, s')" and "status r = 200"
  shows "clips_of (load_metadata s') = filter (\<lambda>c. \<not> has_id clip_id c) (clips_of (load_metadata s))
         \<and> filter (has_id clip_id) (clips_of (load_metadata s')) = []
         \<and> Some (JStr clip_id) \<notin> set (clip_ids (load_metadata s'))"
proof -
  from assms obtain kvs cs where d: "load_metadata s = JObj kvs"
    and m: "map_of kvs ''clips'' = Some (JList cs)"
    and s': "metadata_file s' =
               Json_text (JObj (AList.update ''clips''
                 (JList (filter (\<lambda>c. \<not> has_id clip_id c) cs)) kvs))"
    by (rule delete_clip_success) simp
  from s' have "clips_of (load_metadata s') = filter (\<lambda>c. \<not> has_id clip_id c) cs"
    by (simp add: load_metadata_def map_of_update_same)
  moreover from d m have "clips_of (load_metadata s) = cs" by simp
  ultimately have 1: "clips_of (load_metadata s') =
      filter (\<lambda>c. \<not> has_id clip_id c) (clips_of (load_metadata s))"
    by simp
  then have 2: "filter (has_id clip_id) (clips_of (load_metadata s')) = []"
    by (simp add: filter_empty_conv)
  then have "Some (JStr clip_id) \<notin> set (clip_ids (load_metadata s'))"
    by (auto simp: clip_ids_def filter_empty_conv has_id_def)
  with 1 2 show ?thesis by simp
qed

theorem delete_removes_every_match_witness:
  "status (fst (delete_clip ''1b4e28ba'' twins_fs)) = 200
   \<and> clips_of (load_metadata twins_fs) = [example_record, other_record, twin_record]
   \<and> clips_of (load_metadata (snd (delete_clip ''1b4e28ba'' twins_fs))) = [other_record]"
proof -
  have h: "status (fst (delete_clip ''1b4e28ba'' twins_fs)) = 200"
    by (simp add: delete_twins)
  have c: "clips_of (load_metadata twins_fs) = [example_record, other_record, twin_record]"
    by (simp add: twins_fs_def load_metadata_def)
  have k: "filter (\<lambda>c. \<not> has_id ''1b4e28ba'' c) [example_record, other_record, twin_record]
      = [other_record]"
    by (simp add: has_id_def example_record_def other_record_def twin_record_def)
  have p: "delete_clip ''1b4e28ba'' twins_fs
      = (fst (delete_clip ''1b4e28ba'' twins_fs), snd (delete_clip ''1b4e28ba'' twins_fs))"
    by simp
  show ?thesis
    using delete_removes_every_match[OF p h] h c k
    by simp
qed



subsection \<open>Downloading\<close>

text \<open>
  C7. On a document of the service's shape, with the upload directory readable and the
  looked-up record naming its blob by a plain name (as every record written by an upload
  does), \<^verbatim>\<open>get_clip\<close> does exactly one of three things: it answers 404 "Clip not found"
  when no record has the identifier; it answers 404 "File not found on server" when the
  first record of the identifier names a blob that is absent; it serves the content of
  that blob otherwise. So the status is 404 in these two cases and in no other, both
  times as an error body with status 404.
\<close>

theorem get_clip_not_found_cases:
  assumes "is_document (load_metadata s)"
    and "uploads_readable s"
    and "\<forall>c name. lookup_clip clip_id (load_metadata s) = Some c \<and> filename_of c = Some name
           \<longrightarrow> plain_name name"
  shows "((lookup_clip clip_id (load_metadata s) = None
           \<and> get_clip clip_id s = Client_error ''Clip not found'' 404)
          \<or> (\<exists>c name. lookup_clip clip_id (load_metadata s) = Some c \<and> filename_of c = Some name
                \<and> uploads s name = None
                \<and> get_clip clip_id s = Client_error ''File not found on server'' 404)
          \<or> (\<exists>c name data. lookup_clip clip_id (load_metadata s) = Some c
                \<and> filename_of c = Some name \<and> uploads s name = Some data
                \<and> get_clip clip_id s = File_body name data))
         \<and> (status (get_clip clip_id s) = 404 \<longleftrightarrow>
              (lookup_clip clip_id (load_metadata s) = None
               \<or> (\<exists>c name. lookup_clip clip_id (load_metadata s) = Some c
                     \<and> filename_of c = Some name \<and> uploads s name = None)))"
proof (cases "lookup_clip clip_id (load_metadata s)")
  case None
  then show ?thesis using get_clip_document[OF assms(1), of clip_id] by simp
next
  case (Some c)
  with assms(1) obtain name where name: "filename_of c = Some name"
    by (rule document_record_filename)
  with Some assms(3) have "plain_name name" by blast
  then have e: "path_entry name s =
      (case uploads s name of None \<Rightarrow> No_entry | Some data \<Rightarrow> Regular_file data)"
    using assms(2) by (rule path_entry_plain)
  show ?thesis
  proof (cases "uploads s name")
    case None
    with Some name e show ?thesis using get_clip_document[OF assms(1), of clip_id] by simp
  next
    case (Some data)
    with \<open>lookup_clip clip_id (load_metadata s) = Some c\<close> name e show ?thesis
      using get_clip_document[OF assms(1), of clip_id] by simp
  qed
qed

theorem get_clip_not_found_cases_witness:
  "is_document (load_metadata stored_fs) \<and> is_document (load_metadata orphaned_fs)
   \<and> uploads_readable stored_fs \<and> uploads_readable orphaned_fs
   \<and> plain_name ''1b4e28ba.mp4''
   \<and> get_clip ''ffffffff'' stored_fs = Client_error ''Clip not found'' 404
   \<and> get_clip ''1b4e28ba'' orphaned_fs = Client_error ''File not found on server'' 404
   \<and> get_clip ''1b4e28ba'' stored_fs = File_body ''1b4e28ba.mp4'' [104, 105]"
proof -
  have a: "lookup_clip ''ffffffff'' (load_metadata stored_fs) = None"
    by (simp add: stored_fs_def load_metadata_def example_record_def lookup_clip_def has_id_def)
  have b: "lookup_clip ''1b4e28ba'' (load_metadata orphaned_fs) = Some example_record"
    by (simp add: orphaned_fs_def load_metadata_def example_record_def lookup_clip_def has_id_def)
  have c: "lookup_clip ''1b4e28ba'' (load_metadata stored_fs) = Some example_record"
    by (simp add: stored_fs_def load_metadata_def example_record_def lookup_clip_def has_id_def)
  have n: "filename_of example_record = Some ''1b4e28ba.mp4''"
    by (simp add: example_record_def)
  have u: "uploads orphaned_fs ''1b4e28ba.mp4'' = None"
    "uploads stored_fs ''1b4e28ba.mp4'' = Some [104, 105]"
    by (simp_all add: orphaned_fs_def stored_fs_def)
  have r: "uploads_readable stored_fs" "uploads_readable orphaned_fs"
    by (simp_all add: orphaned_fs_def stored_fs_def)
  have pl: "plain_name ''1b4e28ba.mp4''"
    by code_simp
  have ha: "\<forall>c name. lookup_clip ''ffffffff'' (load_metadata stored_fs) = Some c
      \<and> filename_of c = Some name \<longrightarrow> plain_name name"
    by (simp add: a)
  have hb: "\<forall>c name. lookup_clip ''1b4e28ba'' (load_metadata orphaned_fs) = Some c
      \<and> filename_of c = Some name \<longrightarrow> plain_name name"
    using n pl by (simp add: b)
  have hc: "\<forall>c name. lookup_clip ''1b4e28ba'' (load_metadata stored_fs) = Some c
      \<and> filename_of c = Some name \<longrightarrow> plain_name name"
    using n pl by (simp add: c)
  have 1: "get_clip ''ffffffff'' stored_fs = Client_error ''Clip not found'' 404"
    using get_clip_not_found_cases[OF stored_fs_document r(1) ha] a by simp
  have 2: "get_clip ''1b4e28ba'' orphaned_fs = Client_error ''File not found on server'' 404"
    using get_clip_not_found_cases[OF orphaned_fs_document r(2) hb] b n u by simp
  have 3: "get_clip ''1b4e28ba'' stored_fs = File_body ''1b4e28ba.mp4'' [104, 105]"
    using get_clip_not_found_cases[OF stored_fs_document r(1) hc] c n u by auto
  show ?thesis using 1 2 3 stored_fs_document orphaned_fs_document r pl by simp
qed

text \<open>
  Without these hypotheses the answer can be 500: a record whose file name is empty names
  the upload directory itself, which is there and is not a file, so
  \<^verbatim>\<open>send_from_directory\<close> raises and line 161 answers 500; and when looking at the path
  raises, the answer is 500 as well.
\<close>

lemma get_clip_directory_name:
  "is_document (load_metadata nameless_fs)
   \<and> lookup_clip ''1b4e28ba'' (load_metadata nameless_fs) = Some nameless_record
   \<and> get_clip ''1b4e28ba'' nameless_fs = Server_error NotFound"
proof -
  have d: "is_document (load_metadata nameless_fs)"
    by (simp add: nameless_fs_def load_metadata_def nameless_record_def is_clip_record_def)
  have l: "lookup_clip ''1b4e28ba'' (load_metadata nameless_fs) = Some nameless_record"
    by (simp add: nameless_fs_def load_metadata_def nameless_record_def lookup_clip_def has_id_def)
  have n: "filename_of nameless_record = Some []"
    by (simp add: nameless_record_def)
  have e: "path_entry [] nameless_fs = Not_served"
    by (simp add: path_entry_def plain_name_def nameless_fs_def example_paths_def)
  show ?thesis
    using get_clip_document[OF d, of "''1b4e28ba''"] d l n e by simp
qed

lemma get_clip_stat_error:
  assumes "is_document (load_metadata s)"
    and "lookup_clip clip_id (load_metadata s) = Some c"
    and "filename_of c = Some name"
    and "plain_name name" and "\<not> uploads_readable s"
  shows "get_clip clip_id s = Server_error OSError"
  using get_clip_document[OF assms(1), of clip_id] assms(2-5)
  by (simp add: path_entry_def)

subsection \<open>Uniqueness of identifiers\<close>

text \<open>
  C3. The claim is that in every state reached by uploads and deletes no two records
  share a \<^verbatim>\<open>clip_id\<close>, and the docstring of \<^verbatim>\<open>generate_clip_id\<close> promises a unique
  identifier. The code keeps the first eight characters of a uuid4 and appends the record
  without comparing the identifier with the stored ones: starting from the empty
  document, two accepted uploads whose (different) uuids share their first eight
  characters leave two records with one \<^verbatim>\<open>clip_id\<close>.
\<close>

theorem clip_ids_collide:
  "is_document (load_metadata initial_fs)
   \<and> distinct (clip_ids (load_metadata initial_fs))
   \<and> \<not> distinct (clip_ids (load_metadata
         (run [Upload example_env (Some demo_file), Upload colliding_env (Some demo_file)]
            initial_fs)))"
  by (simp add: upload_demo upload_collision)
    (simp add: initial_fs_def load_metadata_def clip_ids_def)

text \<open>
  What the code does keep: from a document of the service's shape whose identifiers are
  pairwise different, the identifiers stay pairwise different through any sequence of
  requests as long as the identifiers drawn by its uploads are pairwise different and
  differ from the ones stored at the start. Deletes and failed requests never break it.
\<close>

lemma clip_ids_stay_unique:
  assumes "is_document (load_metadata s)"
    and "distinct (clip_ids (load_metadata s))"
    and "distinct (generated_ids rs)"
    and "\<forall>g\<in>set (generated_ids rs). Some (JStr g) \<notin> set (clip_ids (load_metadata s))"
  shows "distinct (clip_ids (load_metadata (run rs s)))"
  using assms
proof (induction rs arbitrary: s)
  case Nil
  then show ?case by simp
next
  case (Cons r rs)
  from unique_step[OF Cons.prems]
  have "is_document (load_metadata (snd (handle r s)))"
    and "distinct (clip_ids (load_metadata (snd (handle r s))))"
    and "distinct (generated_ids rs)"
    and "\<forall>g\<in>set (generated_ids rs).
               Some (JStr g) \<notin> set (clip_ids (load_metadata (snd (handle r s))))"
    by simp_all
  then have "distinct (clip_ids (load_metadata (run rs (snd (handle r s)))))"
    by (rule Cons.IH)
  then show ?case by simp
qed

lemma clip_ids_stay_unique_example:
  "is_document (load_metadata initial_fs)
   \<and> distinct (clip_ids (load_metadata initial_fs))
   \<and> generated_ids [Upload example_env (Some demo_file), Upload other_env (Some demo_file),
        Delete ''1b4e28ba''] = [''1b4e28ba'', ''9c0ffee1'']
   \<and> distinct (clip_ids (load_metadata
         (run [Upload example_env (Some demo_file), Upload other_env (Some demo_file),
               Delete ''1b4e28ba''] initial_fs)))"
proof -
  let ?rs = "[Upload example_env (Some demo_file), Upload other_env (Some demo_file),
               Delete ''1b4e28ba'']"
  have a: "is_document (load_metadata initial_fs)"
    and b: "distinct (clip_ids (load_metadata initial_fs))"
    and i: "clip_ids (load_metadata initial_fs) = []"
    by (simp_all add: initial_fs_def load_metadata_def clip_ids_def)
  have g: "generated_ids ?rs = [''1b4e28ba'', ''9c0ffee1'']"
    by (simp add: generate_clip_id_def example_env_def other_env_def)
  have c: "distinct (generated_ids ?rs)"
    unfolding g by simp
  have d: "\<forall>g\<in>set (generated_ids ?rs). Some (JStr g) \<notin> set (clip_ids (load_metadata initial_fs))"
    unfolding i by simp
  show ?thesis
    using clip_ids_stay_unique[OF a b c d] a b g by simp
qed

subsection \<open>Durability of the metadata\<close>



end
